theory Spec2Isabelle
  imports Main
begin

section \<open>Python string operations used by transport.py\<close>

text \<open>
  Strings are byte strings (\<^typ>\<open>string\<close>). \<open>str.lower\<close> is modelled on the ASCII
  letters, which is where the header names, the scheme names and the word
  \<open>unauthorized\<close> live; every other character is left as it is.
\<close>

definition lower_char :: "char \<Rightarrow> char" where
  "lower_char c =
     (let n = (of_char c :: nat) in if 65 \<le> n \<and> n \<le> 90 then char_of (n + 32) else c)"

definition lower :: "string \<Rightarrow> string" where
  "lower s = map lower_char s"

definition startswith :: "string \<Rightarrow> string \<Rightarrow> bool" where
  "startswith s prefix = (take (length prefix) s = prefix)"

text \<open>\<open>s.split(sep)\<close> for a one-character separator: the result is never empty.\<close>

fun split :: "string \<Rightarrow> char \<Rightarrow> string list" where
  "split [] sep = [[]]"
| "split (c # cs) sep =
     (if c = sep then [] # split cs sep
      else (case split cs sep of [] \<Rightarrow> [[c]] | x # xs \<Rightarrow> (c # x) # xs))"

text \<open>\<open>s.strip(chars)\<close>: leading and trailing characters of \<open>chars\<close> are removed.\<close>

definition strip :: "string \<Rightarrow> string \<Rightarrow> string" where
  "strip s chars =
     rev (dropWhile (\<lambda>c. c \<in> set chars) (rev (dropWhile (\<lambda>c. c \<in> set chars) s)))"

text \<open>\<open>s.count(sub)\<close>: the number of non-overlapping occurrences, scanning from the left.\<close>

function count :: "string \<Rightarrow> string \<Rightarrow> nat" where
  "count s sub =
     (if sub = [] then length s + 1
      else if length s < length sub then 0
      else if take (length sub) s = sub then 1 + count (drop (length sub) s) sub
      else count (tl s) sub)"
  by pat_completeness auto
termination
  by (relation "measure (\<lambda>(s, sub). length s)") (auto simp: neq_Nil_conv)

declare count.simps [simp del]

text \<open>\<open>'%s' % n\<close> for an integer: its decimal numeral.\<close>

function str_nat :: "nat \<Rightarrow> string" where
  "str_nat n = (if n < 10 then [char_of (48 + n)] else str_nat (n div 10) @ [char_of (48 + n mod 10)])"
  by pat_completeness auto
termination
  by (relation "measure id") auto

declare str_nat.simps [simp del]

definition str_int :: "int \<Rightarrow> string" where
  "str_int i = (if i < 0 then CHR ''-'' # str_nat (nat (- i)) else str_nat (nat i))"


section \<open>Exceptions and module constants\<close>

text \<open>
  Every exception the module raises, or lets through, is a value. \<open>RequestException\<close>
  stands for whatever the HTTP client raises on its own; \<open>IndexError\<close> and
  \<open>AttributeError\<close> are the interpreter's.
\<close>

datatype exc =
    UnauthorizedError string
  | TransportError string
  | RedirectError string
  | RelativeRedirect string
  | ValueError string
  | IndexError
  | AttributeError
  | RequestException string

text \<open>
  The class declarations live in \<open>errors.py\<close>, which is not part of the sources at hand.
  What \<open>except TransportError\<close> catches besides \<open>TransportError\<close> itself is therefore a
  parameter: one flag per exchangelib exception class saying whether it derives from
  \<open>TransportError\<close>. The interpreter's and the HTTP client's exceptions never do.
\<close>

record error_hierarchy =
  redirect_is_transport :: bool
  relative_is_transport :: bool
  unauthorized_is_transport :: bool

fun isinstance_TransportError :: "error_hierarchy \<Rightarrow> exc \<Rightarrow> bool" where
  "isinstance_TransportError h (TransportError m) = True"
| "isinstance_TransportError h (RedirectError u) = redirect_is_transport h"
| "isinstance_TransportError h (RelativeRedirect u) = relative_is_transport h"
| "isinstance_TransportError h (UnauthorizedError m) = unauthorized_is_transport h"
| "isinstance_TransportError h e = False"

definition NOAUTH :: string where "NOAUTH = ''no authentication''"
definition NTLM :: string where "NTLM = ''NTLM''"
definition BASIC :: string where "BASIC = ''basic''"
definition DIGEST :: string where "DIGEST = ''digest''"
definition UNKNOWN :: string where "UNKNOWN = ''unknown''"

datatype auth_model = HttpNtlmAuth | HTTPBasicAuth | HTTPDigestAuth

text \<open>An auth instance records the class it was built from and the two constructor arguments.\<close>

datatype auth_instance = Auth auth_model string string

definition AUTH_TYPE_MAP :: "string \<rightharpoonup> auth_model option" where
  "AUTH_TYPE_MAP =
     map_of [(NTLM, Some HttpNtlmAuth), (BASIC, Some HTTPBasicAuth),
             (DIGEST, Some HTTPDigestAuth), (NOAUTH, None)]"


section \<open>Responses and redirects\<close>

text \<open>
  A response as the module reads it: status, reason, header items in iteration order and
  body text. The last four fields carry what URL resolution (in \<open>util.py\<close>, not part of
  the sources at hand) works on: the URL, host and scheme of the original request, and
  the resolved redirect target \<open>(url, server, has_ssl)\<close>, \<open>None\<close> when the Location
  header is absent or ill-formed.
\<close>

record response =
  status_code :: int
  reason :: string
  headers :: "(string \<times> string) list"
  text' :: string
  request_url :: string
  request_server :: string
  request_has_ssl :: bool
  redirect_target :: "(string \<times> string \<times> bool) option"

text \<open>
  Modelled from the spec: \<open>get_redirect_url\<close> of \<open>util.py\<close> is missing from the sources.
  The spec's RedirectInfo is a target URL, a target host and whether scheme and host are
  those of the original request (relative) or not; resolution fails when the target is
  ill-formed or equal to the source. The two keyword arguments are the ones the call
  sites pass: with \<open>allow_relative=False\<close> a relative redirect raises
  \<open>RelativeRedirect\<close>, with \<open>require_relative=True\<close> a redirect to another scheme or host
  does (the comment at the autodiscover call site says so); the exception carries the
  target URL.
\<close>

definition is_relative :: "response \<Rightarrow> string \<times> string \<times> bool \<Rightarrow> bool" where
  "is_relative r t =
     (case t of (u, server, has_ssl) \<Rightarrow> has_ssl = request_has_ssl r \<and> server = request_server r)"

definition get_redirect_url :: "response \<Rightarrow> bool \<Rightarrow> bool \<Rightarrow> exc + (string \<times> string \<times> bool)" where
  "get_redirect_url r allow_relative require_relative =
     (case redirect_target r of
        None \<Rightarrow> Inl (TransportError ''302 redirect but no location header'')
      | Some t \<Rightarrow>
          (case t of (redirect_url, redirect_server, redirect_has_ssl) \<Rightarrow>
             if redirect_url = request_url r
             then Inl (TransportError (''Redirect to same location: '' @ redirect_url))
             else if \<not> allow_relative \<and> is_relative r t then Inl (RelativeRedirect redirect_url)
             else if require_relative \<and> \<not> is_relative r t then Inl (RelativeRedirect redirect_url)
             else Inr (redirect_url, redirect_server, redirect_has_ssl)))"


section \<open>\<open>_test_response\<close> and \<open>_is_unauthorized\<close>\<close>

definition is_unauthorized :: "string \<Rightarrow> bool" where
  "is_unauthorized txt = (if count (lower txt) ''unauthorized'' > 0 then True else False)"

text \<open>
  \<open>is_xml\<close> comes from \<open>util.py\<close> and is a parameter. \<open>auth\<close> is the auth instance
  the request was sent with, \<open>None\<close> for no authentication.
\<close>

definition isinstance_HttpNtlmAuth :: "auth_instance option \<Rightarrow> bool" where
  "isinstance_HttpNtlmAuth auth =
     (case auth of Some (Auth HttpNtlmAuth u p) \<Rightarrow> True | _ \<Rightarrow> False)"

definition test_response :: "(string \<Rightarrow> bool) \<Rightarrow> auth_instance option \<Rightarrow> response \<Rightarrow> exc + bool" where
  "test_response is_xml auth response =
     (let resp = text' response in
      if is_xml resp then Inr True
      else if is_unauthorized resp then Inl (UnauthorizedError ''Unauthorized (non-401)'')
      else if isinstance_HttpNtlmAuth auth \<and> resp = []
        then Inl (UnauthorizedError ''Unauthorized (NTLM, empty response)'')
      else Inl (TransportError (''Unknown response from Exchange:'' @ [CHR 0x0A, CHR 0x0A] @ resp)))"


section \<open>\<open>wrap\<close>\<close>

text \<open>
  Modelled from the spec: the XML element facility (\<open>create_element\<close>, child append,
  \<open>add_xml_child\<close>) of \<open>util.py\<close> is missing from the sources. An element is a tag,
  attributes in the order given, an optional text and its children in order; the payload
  is such an element and is never inspected. Serialisation (\<open>xml_to_str\<close>) and the
  constant \<open>IMPERSONATION\<close> of \<open>credentials.py\<close> are parameters.
\<close>

datatype element = Element string "(string \<times> string) list" "string option" "element list"

definition create_element :: "string \<Rightarrow> (string \<times> string) list \<Rightarrow> element" where
  "create_element name attrs = Element name attrs None []"

fun append :: "element \<Rightarrow> element \<Rightarrow> element" where
  "append (Element name attrs txt kids) child = Element name attrs txt (kids @ [child])"

definition add_xml_child :: "element \<Rightarrow> string \<Rightarrow> string \<Rightarrow> element" where
  "add_xml_child tree name val = append tree (Element name [] (Some val) [])"

fun tag :: "element \<Rightarrow> string" where
  "tag (Element name attrs txt kids) = name"

fun children :: "element \<Rightarrow> element list" where
  "children (Element name attrs txt kids) = kids"

definition SOAPNS :: string where "SOAPNS = ''http://schemas.xmlsoap.org/soap/envelope/''"
definition MNS :: string where "MNS = ''http://schemas.microsoft.com/exchange/services/2006/messages''"
definition TNS :: string where "TNS = ''http://schemas.microsoft.com/exchange/services/2006/types''"
definition ENS :: string where "ENS = ''http://schemas.microsoft.com/exchange/services/2006/errors''"

record account =
  access_type :: string
  primary_smtp_address :: string

record ewstimezone =
  ms_id :: string

text \<open>The element tree \<open>wrap\<close> hands to \<open>xml_to_str\<close>, statement by statement.\<close>

definition wrap_envelope ::
  "string \<Rightarrow> element \<Rightarrow> string \<Rightarrow> account option \<Rightarrow> ewstimezone option \<Rightarrow> element" where
  "wrap_envelope IMPERSONATION content version account tz =
     (let envelope = create_element ''s:Envelope''
            [(''xmlns:s'', SOAPNS), (''xmlns:t'', TNS), (''xmlns:m'', MNS)];
          header = create_element ''s:Header'' [];
          requestserverversion = create_element ''t:RequestServerVersion'' [(''Version'', version)];
          header = append header requestserverversion;
          header =
            (case account of
               None \<Rightarrow> header
             | Some a \<Rightarrow>
                 if access_type a = IMPERSONATION then
                   (let exchangeimpersonation = create_element ''t:ExchangeImpersonation'' [];
                        connectingsid = create_element ''t:ConnectingSID'' [];
                        connectingsid =
                          add_xml_child connectingsid ''t:PrimarySmtpAddress'' (primary_smtp_address a);
                        exchangeimpersonation = append exchangeimpersonation connectingsid
                    in append header exchangeimpersonation)
                 else header);
          header =
            (case tz of
               None \<Rightarrow> header
             | Some z \<Rightarrow>
                 (let timezonecontext = create_element ''t:TimeZoneContext'' [];
                      timezonedefinition = create_element ''t:TimeZoneDefinition'' [(''Id'', ms_id z)];
                      timezonecontext = append timezonecontext timezonedefinition
                  in append header timezonecontext));
          envelope = append envelope header;
          body = create_element ''s:Body'' [];
          body = append body content;
          envelope = append envelope body
      in envelope)"

definition wrap ::
  "string \<Rightarrow> (element \<Rightarrow> string \<Rightarrow> bool \<Rightarrow> 's) \<Rightarrow>
   element \<Rightarrow> string \<Rightarrow> account option \<Rightarrow> ewstimezone option \<Rightarrow> string \<Rightarrow> 's" where
  "wrap IMPERSONATION xml_to_str content version account tz encoding =
     xml_to_str (wrap_envelope IMPERSONATION content version account tz) encoding True"


section \<open>\<open>get_auth_instance\<close>\<close>

text \<open>
  \<open>credentials\<close> is \<open>None\<close> or an object with the attributes the function reads; reading
  an attribute of \<open>None\<close> raises \<open>AttributeError\<close>.
\<close>

record credentials =
  username :: string
  password :: string
  type :: string
  EMAIL :: string

definition get_auth_instance :: "credentials option \<Rightarrow> string \<Rightarrow> exc + auth_instance option" where
  "get_auth_instance creds auth_type =
     (case AUTH_TYPE_MAP auth_type of
        None \<Rightarrow>
          Inl (ValueError (''Authentication type '' @ [CHR 0x27] @ auth_type @ [CHR 0x27] @ '' not supported''))
      | Some None \<Rightarrow> Inr None
      | Some (Some model) \<Rightarrow>
          (case creds of
             None \<Rightarrow> Inl AttributeError
           | Some c \<Rightarrow>
               (let uname = username c;
                    uname = (if auth_type = NTLM \<and> type c = EMAIL c then CHR 0x5C # uname else uname)
                in Inr (Some (Auth model uname (password c))))))"


section \<open>\<open>_tokenize\<close>\<close>

text \<open>The loop over the characters, with the three locals \<open>tokens\<close>, \<open>token\<close>, \<open>quote\<close>.\<close>

fun tokenize_loop :: "string list \<Rightarrow> string \<Rightarrow> bool \<Rightarrow> string \<Rightarrow> string list" where
  "tokenize_loop tokens token quote [] = (if token \<noteq> [] then tokens @ [token] else tokens)"
| "tokenize_loop tokens token quote (c # cs) =
     (if (c = CHR '' '' \<or> c = CHR '','') \<and> \<not> quote then
        tokenize_loop (if token \<noteq> [] \<and> token \<noteq> '','' then tokens @ [token] else tokens) [] quote cs
      else if c = CHR 0x22 then
        (if quote then tokenize_loop (tokens @ [token @ [c]]) [] (\<not> quote) cs
         else tokenize_loop tokens (token @ [c]) (\<not> quote) cs)
      else tokenize_loop tokens (token @ [c]) quote cs)"

definition tokenize :: "string \<Rightarrow> string list" where
  "tokenize val = tokenize_loop [] [] False val"

text \<open>
  Vocabulary for stating what the tokenizer does: the input with every space and comma
  outside quotes removed, a word free of separators and quotes, and the shape of the
  pending token during the scan.
\<close>

fun drop_unquoted_separators :: "bool \<Rightarrow> string \<Rightarrow> string" where
  "drop_unquoted_separators quote [] = []"
| "drop_unquoted_separators quote (c # cs) =
     (if (c = CHR '' '' \<or> c = CHR '','') \<and> \<not> quote then drop_unquoted_separators quote cs
      else if c = CHR 0x22 then c # drop_unquoted_separators (\<not> quote) cs
      else c # drop_unquoted_separators quote cs)"

definition bare_word :: "string \<Rightarrow> bool" where
  "bare_word w = (CHR '' '' \<notin> set w \<and> CHR '','' \<notin> set w \<and> CHR 0x22 \<notin> set w)"

definition pending_ok :: "string \<Rightarrow> bool \<Rightarrow> bool" where
  "pending_ok token quote =
     (if quote then (\<exists>w u. token = w @ CHR 0x22 # u \<and> bare_word w \<and> CHR 0x22 \<notin> set u)
      else bare_word token)"


section \<open>\<open>_get_auth_method_from_response\<close>\<close>

text \<open>
  The inner loop over the tokens computes \<open>realm\<close> for the debug log only; indexing the
  split at 1 raises \<open>IndexError\<close> when the token has no \<open>=\<close>. The loop returns the last
  realm seen.
\<close>

fun realm_loop :: "string option \<Rightarrow> string list \<Rightarrow> exc + string option" where
  "realm_loop realm [] = Inr realm"
| "realm_loop realm (v # vs) =
     (if startswith v ''realm'' then
        (case split v CHR ''='' of
           x # y # ys \<Rightarrow> realm_loop (Some (strip y [CHR 0x22])) vs
         | _ \<Rightarrow> Inl IndexError)
      else realm_loop realm vs)"

text \<open>The loop over \<open>response.headers.items()\<close>, and what follows it.\<close>

fun scan_headers :: "(string \<times> string) list \<Rightarrow> exc + string" where
  "scan_headers [] =
     Inl (UnauthorizedError ''Got a 401, but no compatible auth type was reported by server'')"
| "scan_headers ((key, val) # items) =
     (if lower key = ''www-authenticate'' then
        (let vals = tokenize (lower val) in
         case realm_loop None vals of
           Inl e \<Rightarrow> Inl e
         | Inr realm \<Rightarrow>
             if ''digest'' \<in> set vals then Inr DIGEST
             else if ''ntlm'' \<in> set vals then Inr NTLM
             else if ''basic'' \<in> set vals then Inr BASIC
             else scan_headers items)
      else scan_headers items)"

definition get_auth_method_from_response :: "response \<Rightarrow> exc + string" where
  "get_auth_method_from_response response =
     (if status_code response = 200 then Inr NOAUTH
      else if status_code response = 302 then
        (case get_redirect_url response False False of
           Inl (RelativeRedirect u) \<Rightarrow> Inl (TransportError ''Circular redirect'')
         | Inl e \<Rightarrow> Inl e
         | Inr (redirect_url, redirect_server, redirect_has_ssl) \<Rightarrow> Inl (RedirectError redirect_url))
      else if status_code response \<noteq> 401 then
        Inl (TransportError (''Unexpected response: '' @ str_int (status_code response) @ '' ''
               @ reason response))
      else scan_headers (headers response))"


section \<open>The probes\<close>

text \<open>
  The HTTP client is a parameter: \<open>http n rq\<close> is what the \<open>n\<close>-th request of the
  session (counted from 0) yields, a response or an exception of the client's. Each
  probe returns its outcome together with the requests it issued, in order.
\<close>

datatype http_method = HEAD | GET | POST

record request =
  req_method :: http_method
  req_url :: string
  req_headers :: "(string \<times> string) list"
  req_data :: "string option"
  req_timeout :: "int option"
  req_allow_redirects :: bool
  req_verify :: bool

type_synonym http_client = "nat \<Rightarrow> request \<Rightarrow> exc + response"

definition content_type_headers :: "(string \<times> string) list" where
  "content_type_headers = [(''Content-Type'', ''text/xml; charset=utf-8'')]"

definition autodiscover_head :: "string \<Rightarrow> int \<Rightarrow> bool \<Rightarrow> request" where
  "autodiscover_head service_endpoint timeout verify =
     \<lparr>req_method = HEAD, req_url = service_endpoint, req_headers = content_type_headers,
      req_data = None, req_timeout = Some timeout, req_allow_redirects = False,
      req_verify = verify\<rparr>"

definition autodiscover_post :: "string \<Rightarrow> string \<Rightarrow> int \<Rightarrow> bool \<Rightarrow> request" where
  "autodiscover_post service_endpoint data timeout verify =
     \<lparr>req_method = POST, req_url = service_endpoint, req_headers = content_type_headers,
      req_data = Some data, req_timeout = Some timeout, req_allow_redirects = False,
      req_verify = verify\<rparr>"

definition get_autodiscover_authtype ::
  "http_client \<Rightarrow> string \<Rightarrow> string \<Rightarrow> int \<Rightarrow> bool \<Rightarrow> (exc + string) \<times> request list" where
  "get_autodiscover_authtype http service_endpoint data timeout verify =
     (let head_rq = autodiscover_head service_endpoint timeout verify;
          post_rq = autodiscover_post service_endpoint data timeout verify
      in case http 0 head_rq of
           Inl e \<Rightarrow> (Inl e, [head_rq])
         | Inr r \<Rightarrow>
             (case (if status_code r = 302 then
                      (case get_redirect_url r True True of
                         Inl (RelativeRedirect v) \<Rightarrow> Inl (RedirectError v)
                       | Inl e \<Rightarrow> Inl e
                       | Inr t \<Rightarrow> Inr ())
                    else Inr ()) of
                Inl e \<Rightarrow> (Inl e, [head_rq])
              | Inr u \<Rightarrow>
                  (case http 1 post_rq of
                     Inl e \<Rightarrow> (Inl e, [head_rq, post_rq])
                   | Inr r' \<Rightarrow> (get_auth_method_from_response r', [head_rq, post_rq]))))"

definition docs_get :: "string \<Rightarrow> bool \<Rightarrow> request" where
  "docs_get docs_url verify =
     \<lparr>req_method = GET, req_url = docs_url, req_headers = content_type_headers,
      req_data = None, req_timeout = None, req_allow_redirects = True, req_verify = verify\<rparr>"

definition get_docs_authtype :: "http_client \<Rightarrow> string \<Rightarrow> bool \<Rightarrow> (exc + string) \<times> request list" where
  "get_docs_authtype http docs_url verify =
     (let rq = docs_get docs_url verify
      in case http 0 rq of
           Inl e \<Rightarrow> (Inl e, [rq])
         | Inr r \<Rightarrow> (get_auth_method_from_response r, [rq]))"

text \<open>
  \<open>dummy_xml\<close> delegates to \<open>ResolveNames.payload\<close> of \<open>services.py\<close>, a parameter here:
  it is called with the version, no account and the one-element list of names.
\<close>

definition dummy_xml :: "(string \<Rightarrow> account option \<Rightarrow> string list \<Rightarrow> string) \<Rightarrow> string \<Rightarrow> string \<Rightarrow> string" where
  "dummy_xml payload version name = payload version None [name]"

definition service_post :: "string \<Rightarrow> bool \<Rightarrow> string \<Rightarrow> request" where
  "service_post service_endpoint verify data =
     \<lparr>req_method = POST, req_url = service_endpoint, req_headers = content_type_headers,
      req_data = Some data, req_timeout = None, req_allow_redirects = True, req_verify = verify\<rparr>"

text \<open>
  The \<open>for version in versions\<close> loop; \<open>n\<close> counts the requests issued so far. The POST
  stands outside the \<open>try\<close>, so an exception of the client's leaves the function; inside
  it, only an instance of \<open>TransportError\<close> leads to the next version.
\<close>

fun service_loop ::
  "error_hierarchy \<Rightarrow> http_client \<Rightarrow> (string \<Rightarrow> string) \<Rightarrow> string \<Rightarrow> bool \<Rightarrow> nat \<Rightarrow> string list \<Rightarrow>
   (exc + string) \<times> request list" where
  "service_loop h http mk_data service_endpoint verify n [] =
     (Inl (TransportError ''Failed to get auth type from service''), [])"
| "service_loop h http mk_data service_endpoint verify n (version # versions) =
     (let data = mk_data version;
          rq = service_post service_endpoint verify data
      in case http n rq of
           Inl e \<Rightarrow> (Inl e, [rq])
         | Inr r \<Rightarrow>
             (case get_auth_method_from_response r of
                Inr auth_type \<Rightarrow> (Inr auth_type, [rq])
              | Inl e \<Rightarrow>
                  if isinstance_TransportError h e then
                    (case service_loop h http mk_data service_endpoint verify (Suc n) versions of
                       (res, rqs) \<Rightarrow> (res, rq # rqs))
                  else (Inl e, [rq])))"

definition get_service_authtype ::
  "error_hierarchy \<Rightarrow> http_client \<Rightarrow> (string \<Rightarrow> account option \<Rightarrow> string list \<Rightarrow> string) \<Rightarrow>
   string \<Rightarrow> string list \<Rightarrow> bool \<Rightarrow> string \<Rightarrow> (exc + string) \<times> request list" where
  "get_service_authtype h http payload service_endpoint versions verify name =
     service_loop h http (\<lambda>version. dummy_xml payload version name) service_endpoint verify 0 versions"

text \<open>One attempt of the service probe, on its own: the outcome of POSTing as request \<open>n\<close>.\<close>

definition service_attempt ::
  "http_client \<Rightarrow> (string \<Rightarrow> string) \<Rightarrow> string \<Rightarrow> bool \<Rightarrow> nat \<Rightarrow> string \<Rightarrow> exc + string" where
  "service_attempt http mk_data service_endpoint verify n version =
     (case http n (service_post service_endpoint verify (mk_data version)) of
        Inl e \<Rightarrow> Inl e
      | Inr r \<Rightarrow> get_auth_method_from_response r)"

definition folds_to_next ::
  "error_hierarchy \<Rightarrow> http_client \<Rightarrow> (string \<Rightarrow> string) \<Rightarrow> string \<Rightarrow> bool \<Rightarrow> nat \<Rightarrow> string \<Rightarrow> bool" where
  "folds_to_next h http mk_data service_endpoint verify n version =
     (case http n (service_post service_endpoint verify (mk_data version)) of
        Inl e \<Rightarrow> False
      | Inr r \<Rightarrow>
          (case get_auth_method_from_response r of
             Inr auth_type \<Rightarrow> False
           | Inl e \<Rightarrow> isinstance_TransportError h e))"


section \<open>The tokenizer\<close>

lemma tokenize_loop_append:
  "tokenize_loop (xs @ ys) token quote s = xs @ tokenize_loop ys token quote s"
  by (induction s arbitrary: ys token quote) simp_all

lemma tokenize_loop_acc:
  "tokenize_loop tokens token quote s = tokens @ tokenize_loop [] token quote s"
  using tokenize_loop_append [of tokens "[]"] by simp

lemma scan_bare_word:
  "bare_word w \<Longrightarrow> tokenize_loop tokens token False (w @ r) = tokenize_loop tokens (token @ w) False r"
  by (induction w arbitrary: token) (auto simp: bare_word_def)

lemma scan_quoted:
  "CHR 0x22 \<notin> set q \<Longrightarrow> tokenize_loop tokens token True (q @ r) = tokenize_loop tokens (token @ q) True r"
  by (induction q arbitrary: token) auto

lemma bare_word_not_comma: "bare_word w \<Longrightarrow> w \<noteq> '',''"
  by (auto simp: bare_word_def)

lemma tokenize_closing_quote:
  assumes "bare_word w" "CHR 0x22 \<notin> set q"
  shows "tokenize (w @ CHR 0x22 # q @ CHR 0x22 # r) = (w @ CHR 0x22 # q @ [CHR 0x22]) # tokenize r"
proof -
  have "tokenize (w @ CHR 0x22 # q @ CHR 0x22 # r) = tokenize_loop [] w False (CHR 0x22 # q @ CHR 0x22 # r)"
    using scan_bare_word [OF assms(1), of "[]" "[]"] by (simp add: tokenize_def)
  also have "\<dots> = tokenize_loop [] (w @ [CHR 0x22]) True (q @ CHR 0x22 # r)" by simp
  also have "\<dots> = tokenize_loop [] (w @ [CHR 0x22] @ q) True (CHR 0x22 # r)"
    using scan_quoted [OF assms(2)] by simp
  also have "\<dots> = tokenize_loop [w @ CHR 0x22 # q @ [CHR 0x22]] [] False r" by simp
  also have "\<dots> = (w @ CHR 0x22 # q @ [CHR 0x22]) # tokenize r"
    using tokenize_loop_acc [of "[w @ CHR 0x22 # q @ [CHR 0x22]]"] by (simp add: tokenize_def)
  finally show ?thesis .
qed

lemma tokenize_separator:
  assumes "bare_word w" "c = CHR '' '' \<or> c = CHR '',''"
  shows "tokenize (w @ c # r) = (if w = [] then tokenize r else w # tokenize r)"
proof -
  have "tokenize (w @ c # r) = tokenize_loop [] w False (c # r)"
    using scan_bare_word [OF assms(1), of "[]" "[]"] by (simp add: tokenize_def)
  also have "\<dots> = tokenize_loop (if w = [] then [] else [w]) [] False r"
    using assms bare_word_not_comma [OF assms(1)] by auto
  also have "\<dots> = (if w = [] then tokenize r else w # tokenize r)"
    using tokenize_loop_acc [of "[w]" "[]" False r] by (simp add: tokenize_def)
  finally show ?thesis .
qed

lemma tokenize_residual:
  assumes "bare_word w" "w \<noteq> []"
  shows "tokenize w = [w]"
  using scan_bare_word [OF assms(1), of "[]" "[]" "[]"] assms(2) by (simp add: tokenize_def)

lemma tokenize_residual_open_quote:
  assumes "bare_word w" "CHR 0x22 \<notin> set q"
  shows "tokenize (w @ CHR 0x22 # q) = [w @ CHR 0x22 # q]"
proof -
  have "tokenize (w @ CHR 0x22 # q) = tokenize_loop [] w False (CHR 0x22 # q)"
    using scan_bare_word [OF assms(1), of "[]" "[]"] by (simp add: tokenize_def)
  also have "\<dots> = tokenize_loop [] (w @ [CHR 0x22]) True (q @ [])" by simp
  also have "\<dots> = tokenize_loop [] (w @ [CHR 0x22] @ q) True []"
    using scan_quoted [OF assms(2), of "[]" "w @ [CHR 0x22]" "[]"] by simp
  finally show ?thesis by simp
qed

lemma pending_ok_step_plain:
  "pending_ok token quote \<Longrightarrow> c \<noteq> CHR 0x22 \<Longrightarrow> quote \<or> (c \<noteq> CHR '' '' \<and> c \<noteq> CHR '','') \<Longrightarrow>
   pending_ok (token @ [c]) quote"
  apply (cases quote)
   apply (auto simp: pending_ok_def bare_word_def)
  subgoal for w u by (rule exI [of _ w], rule exI [of _ "u @ [c]"]) simp
  done

lemma pending_ok_open: "pending_ok token False \<Longrightarrow> pending_ok (token @ [CHR 0x22]) True"
  unfolding pending_ok_def by (simp, rule exI [of _ token], rule exI [of _ "[]"]) simp

lemma pending_ok_not_comma: "pending_ok token quote \<Longrightarrow> token \<noteq> '',''"
proof (cases quote)
  case True
  assume "pending_ok token quote"
  with True have "CHR 0x22 \<in> set token" by (auto simp: pending_ok_def)
  then show ?thesis by auto
next
  case False
  assume "pending_ok token quote"
  with False show ?thesis by (simp add: pending_ok_def bare_word_not_comma)
qed

lemma pending_ok_empty: "pending_ok [] False"
  by (simp add: pending_ok_def bare_word_def)

lemma drop_bare_word:
  "bare_word w \<Longrightarrow> drop_unquoted_separators False (w @ r) = w @ drop_unquoted_separators False r"
  by (induction w) (auto simp: bare_word_def)

lemma drop_quoted:
  "CHR 0x22 \<notin> set u \<Longrightarrow> drop_unquoted_separators True (u @ r) = u @ drop_unquoted_separators True r"
  by (induction u) auto

lemma pending_ok_fixed:
  assumes "pending_ok token quote"
  shows "drop_unquoted_separators False (token @ r) = token @ drop_unquoted_separators quote r"
proof (cases quote)
  case False
  with assms show ?thesis by (simp add: pending_ok_def drop_bare_word)
next
  case True
  with assms obtain w u where t: "token = w @ CHR 0x22 # u" "bare_word w" "CHR 0x22 \<notin> set u"
    by (auto simp: pending_ok_def)
  have "drop_unquoted_separators False (token @ r) = w @ drop_unquoted_separators False (CHR 0x22 # u @ r)"
    using drop_bare_word [OF t(2)] t(1) by simp
  also have "\<dots> = w @ CHR 0x22 # u @ drop_unquoted_separators True r"
    using drop_quoted [OF t(3)] by simp
  finally show ?thesis using t(1) True by simp
qed

lemma concat_tokenize_loop:
  "pending_ok token quote \<Longrightarrow>
   concat (tokenize_loop [] token quote s) = token @ drop_unquoted_separators quote s"
proof (induction s arbitrary: token quote)
  case Nil
  then show ?case by simp
next
  case (Cons c cs)
  show ?case
  proof (cases "(c = CHR '' '' \<or> c = CHR '','') \<and> \<not> quote")
    case True
    then have nc: "token \<noteq> '',''" using Cons.prems by (auto simp: pending_ok_def bare_word_def)
    have "concat (tokenize_loop [] [] False cs) = drop_unquoted_separators False cs"
      using Cons.IH [OF pending_ok_empty] by simp
    then show ?thesis using True nc tokenize_loop_acc [of "[token]" "[]" False cs] by auto
  next
    case False
    show ?thesis
    proof (cases "c = CHR 0x22")
      case dq: True
      show ?thesis
      proof (cases quote)
        case True
        have "concat (tokenize_loop [] [] False cs) = drop_unquoted_separators False cs"
          using Cons.IH [OF pending_ok_empty] by simp
        then show ?thesis using True dq tokenize_loop_acc [of "[token @ [c]]" "[]" False cs] by simp
      next
        case nq: False
        then have "pending_ok (token @ [c]) True" using Cons.prems dq pending_ok_open by simp
        from Cons.IH [OF this] show ?thesis using nq dq by simp
      qed
    next
      case ndq: False
      have "pending_ok (token @ [c]) quote"
        using pending_ok_step_plain [OF Cons.prems ndq] False by blast
      from Cons.IH [OF this] show ?thesis using False ndq by auto
    qed
  qed
qed

lemma tokens_tokenize_loop:
  "pending_ok token quote \<Longrightarrow> t \<in> set (tokenize_loop [] token quote s) \<Longrightarrow>
   t \<noteq> [] \<and> t \<noteq> '','' \<and> drop_unquoted_separators False t = t"
proof (induction s arbitrary: token quote)
  case Nil
  then have "t = token" "token \<noteq> []" by (auto split: if_splits)
  moreover have "drop_unquoted_separators False (token @ []) = token @ drop_unquoted_separators quote []"
    using pending_ok_fixed [OF Nil.prems(1), of "[]"] by simp
  moreover have "token \<noteq> '',''" using Nil.prems(1) by (rule pending_ok_not_comma)
  ultimately show ?case by simp
next
  case (Cons c cs)
  show ?case
  proof (cases "(c = CHR '' '' \<or> c = CHR '','') \<and> \<not> quote")
    case True
    then have bw: "bare_word token" using Cons.prems(1) by (simp add: pending_ok_def)
    then have nc: "token \<noteq> '',''" by (rule bare_word_not_comma)
    from Cons.prems(2) True nc
    have "t \<in> set (tokenize_loop (if token \<noteq> [] then [token] else []) [] False cs)" by auto
    then have "(t = token \<and> token \<noteq> []) \<or> t \<in> set (tokenize_loop [] [] False cs)"
      using tokenize_loop_acc [of "[token]" "[]" False cs] by (auto split: if_splits)
    then show ?thesis
    proof
      assume "t = token \<and> token \<noteq> []"
      then show ?thesis using nc drop_bare_word [OF bw, of "[]"] by simp
    next
      assume "t \<in> set (tokenize_loop [] [] False cs)"
      then show ?thesis using Cons.IH [OF pending_ok_empty] by blast
    qed
  next
    case False
    show ?thesis
    proof (cases "c = CHR 0x22")
      case dq: True
      show ?thesis
      proof (cases quote)
        case True
        from Cons.prems(2) True dq
        have "t = token @ [c] \<or> t \<in> set (tokenize_loop [] [] False cs)"
          using tokenize_loop_acc [of "[token @ [c]]" "[]" False cs] by auto
        then show ?thesis
        proof
          assume t: "t = token @ [c]"
          have "drop_unquoted_separators False (token @ [c]) = token @ drop_unquoted_separators True [c]"
            using pending_ok_fixed [OF Cons.prems(1), of "[c]"] True by simp
          then show ?thesis using t dq by auto
        next
          assume "t \<in> set (tokenize_loop [] [] False cs)"
          then show ?thesis using Cons.IH [OF pending_ok_empty] by blast
        qed
      next
        case nq: False
        then have p: "pending_ok (token @ [c]) True" using Cons.prems(1) dq pending_ok_open by simp
        from Cons.prems(2) nq dq have "t \<in> set (tokenize_loop [] (token @ [c]) True cs)" by simp
        from Cons.IH [OF p this] show ?thesis .
      qed
    next
      case ndq: False
      have p: "pending_ok (token @ [c]) quote"
        using pending_ok_step_plain [OF Cons.prems(1) ndq] False by blast
      from Cons.prems(2) False ndq have "t \<in> set (tokenize_loop [] (token @ [c]) quote cs)" by auto
      from Cons.IH [OF p this] show ?thesis .
    qed
  qed
qed

text \<open>
  C4. For every input, the tokens concatenated are the input with exactly the spaces and
  commas outside quotes removed, so every character of a quoted span survives; no token
  is empty or the lone comma, and no token holds a separator outside quotes. A closing
  quote emits the token at once, whatever follows; a space or comma outside quotes ends
  the current word (and emits nothing when that word is empty); what is pending at the
  end of the scan is emitted, also inside an unclosed quote. The lower-cased header
  \<open>ntlm, basic realm="a, b"\<close> gives the three tokens of the claim, in order.
\<close>

theorem tokenize_spec:
  \<open>concat (tokenize s) = drop_unquoted_separators False s
   \<and> (\<forall>t \<in> set (tokenize s). t \<noteq> [] \<and> t \<noteq> '','' \<and> drop_unquoted_separators False t = t)
   \<and> (bare_word w \<and> CHR 0x22 \<notin> set q \<longrightarrow>
        tokenize (w @ CHR 0x22 # q @ CHR 0x22 # r) = (w @ CHR 0x22 # q @ [CHR 0x22]) # tokenize r)
   \<and> (bare_word w \<and> (c = CHR '' '' \<or> c = CHR '','') \<longrightarrow>
        tokenize (w @ c # r) = (if w = [] then tokenize r else w # tokenize r))
   \<and> (bare_word w \<and> w \<noteq> [] \<longrightarrow> tokenize w = [w])
   \<and> (bare_word w \<and> CHR 0x22 \<notin> set q \<longrightarrow> tokenize (w @ CHR 0x22 # q) = [w @ CHR 0x22 # q])
   \<and> tokenize ''ntlm, basic realm="a, b"'' = [''ntlm'', ''basic'', ''realm="a, b"'']\<close>
proof -
  have a: "concat (tokenize s) = drop_unquoted_separators False s"
    using concat_tokenize_loop [OF pending_ok_empty, of s] by (simp add: tokenize_def)
  have b: "\<forall>t \<in> set (tokenize s). t \<noteq> [] \<and> t \<noteq> '','' \<and> drop_unquoted_separators False t = t"
    using tokens_tokenize_loop [OF pending_ok_empty, of _ s] unfolding tokenize_def by blast
  have e: \<open>tokenize ''ntlm, basic realm="a, b"'' = [''ntlm'', ''basic'', ''realm="a, b"'']\<close>
    by code_simp
  show ?thesis
    using a b e tokenize_closing_quote [of w q r] tokenize_separator [of w c r]
      tokenize_residual [of w] tokenize_residual_open_quote [of w q]
    by blast
qed

theorem tokenize_spec_witness:
  \<open>bare_word ''ntlm'' \<and> CHR 0x22 \<notin> set ''a, b''
   \<and> tokenize ''ntlm"a, b"basic'' = [''ntlm"a, b"'', ''basic'']
   \<and> tokenize ''ntlm,basic'' = [''ntlm'', ''basic'']
   \<and> tokenize ''ntlm"a, b'' = [''ntlm"a, b'']
   \<and> concat (tokenize ''a, b'') = ''ab''\<close>
proof -
  have h: "bare_word ''ntlm''" "CHR 0x22 \<notin> set ''a, b''" "bare_word ''basic''" "''basic'' \<noteq> []"
    by (simp_all add: bare_word_def)
  have r: "tokenize ''basic'' = [''basic'']"
    using tokenize_spec [where w = "''basic''"] h by blast
  have "tokenize (''ntlm'' @ CHR 0x22 # ''a, b'' @ CHR 0x22 # ''basic'') =
          (''ntlm'' @ CHR 0x22 # ''a, b'' @ [CHR 0x22]) # tokenize ''basic''"
    using tokenize_spec [where w = "''ntlm''" and q = "''a, b''" and r = "''basic''"] h by blast
  moreover have "tokenize (''ntlm'' @ CHR '','' # ''basic'') = ''ntlm'' # tokenize ''basic''"
    using tokenize_spec [where w = "''ntlm''" and c = "CHR '',''" and r = "''basic''"] h by simp
  moreover have "tokenize (''ntlm'' @ CHR 0x22 # ''a, b'') = [''ntlm'' @ CHR 0x22 # ''a, b'']"
    using tokenize_spec [where w = "''ntlm''" and q = "''a, b''"] h by blast
  moreover have "concat (tokenize ''a, b'') = ''ab''"
    using tokenize_spec [where s = "''a, b''"] by simp
  ultimately show ?thesis using h r by simp
qed


section \<open>Building the auth instance\<close>

text \<open>
  C8. \<open>NOAUTH\<close> gives \<open>None\<close>; an auth type that is no key of \<open>AUTH_TYPE_MAP\<close>
  (\<open>UNKNOWN\<close> among them) fails with the \<open>ValueError\<close> that names it; for \<open>NTLM\<close> and
  credentials of type \<open>EMAIL\<close> the username is passed with a backslash in front, and
  as it is otherwise; \<open>BASIC\<close> and \<open>DIGEST\<close> pass username and password unchanged.
\<close>

theorem get_auth_instance_spec:
  "get_auth_instance creds NOAUTH = Inr None
   \<and> (auth_type \<notin> {NTLM, BASIC, DIGEST, NOAUTH} \<longrightarrow>
        get_auth_instance creds auth_type =
          Inl (ValueError (''Authentication type '' @ [CHR 0x27] @ auth_type @ [CHR 0x27] @ '' not supported'')))
   \<and> get_auth_instance creds UNKNOWN =
        Inl (ValueError (''Authentication type '' @ [CHR 0x27] @ UNKNOWN @ [CHR 0x27] @ '' not supported''))
   \<and> (type c = EMAIL c \<longrightarrow>
        get_auth_instance (Some c) NTLM = Inr (Some (Auth HttpNtlmAuth (CHR 0x5C # username c) (password c))))
   \<and> (type c \<noteq> EMAIL c \<longrightarrow>
        get_auth_instance (Some c) NTLM = Inr (Some (Auth HttpNtlmAuth (username c) (password c))))
   \<and> get_auth_instance (Some c) BASIC = Inr (Some (Auth HTTPBasicAuth (username c) (password c)))
   \<and> get_auth_instance (Some c) DIGEST = Inr (Some (Auth HTTPDigestAuth (username c) (password c)))"
  by (simp add: get_auth_instance_def AUTH_TYPE_MAP_def NOAUTH_def NTLM_def BASIC_def DIGEST_def UNKNOWN_def)

theorem get_auth_instance_spec_witness:
  "get_auth_instance (Some \<lparr>username = ''ann@example.com'', password = ''pw'', type = ''email'', EMAIL = ''email''\<rparr>) NTLM
     = Inr (Some (Auth HttpNtlmAuth (CHR 0x5C # ''ann@example.com'') ''pw''))
   \<and> get_auth_instance (Some \<lparr>username = ''ann'', password = ''pw'', type = ''domain'', EMAIL = ''email''\<rparr>) NTLM
     = Inr (Some (Auth HttpNtlmAuth ''ann'' ''pw''))
   \<and> get_auth_instance None ''kerberos''
     = Inl (ValueError (''Authentication type '' @ [CHR 0x27] @ ''kerberos'' @ [CHR 0x27] @ '' not supported''))"
  using get_auth_instance_spec [where c = "\<lparr>username = ''ann@example.com'', password = ''pw'', type = ''email'', EMAIL = ''email''\<rparr>"]
    get_auth_instance_spec [where c = "\<lparr>username = ''ann'', password = ''pw'', type = ''domain'', EMAIL = ''email''\<rparr>"]
    get_auth_instance_spec [where creds = None and auth_type = "''kerberos''"]
  by (simp add: NOAUTH_def NTLM_def BASIC_def DIGEST_def)

text \<open>
  C10. For \<open>NOAUTH\<close> the result is \<open>None\<close> whatever the credentials are, absent ones
  included; outside the three branches \<open>NTLM\<close>, \<open>BASIC\<close> and \<open>DIGEST\<close> the result does not
  depend on the credentials at all, and inside them absent credentials fail on the
  first attribute read.
\<close>

theorem get_auth_instance_noauth:
  "get_auth_instance None NOAUTH = Inr None
   \<and> get_auth_instance creds NOAUTH = Inr None
   \<and> (auth_type \<notin> {NTLM, BASIC, DIGEST} \<longrightarrow>
        get_auth_instance creds auth_type = get_auth_instance None auth_type)
   \<and> (auth_type \<in> {NTLM, BASIC, DIGEST} \<longrightarrow> get_auth_instance None auth_type = Inl AttributeError)"
  by (auto simp add: get_auth_instance_def AUTH_TYPE_MAP_def NOAUTH_def NTLM_def BASIC_def DIGEST_def)

theorem get_auth_instance_noauth_witness:
  "get_auth_instance (Some \<lparr>username = ''u'', password = ''p'', type = ''t'', EMAIL = ''email''\<rparr>) UNKNOWN
     = get_auth_instance None UNKNOWN
   \<and> get_auth_instance None BASIC = Inl AttributeError"
  using get_auth_instance_noauth [where auth_type = UNKNOWN and creds = "Some \<lparr>username = ''u'', password = ''p'', type = ''t'', EMAIL = ''email''\<rparr>"]
    get_auth_instance_noauth [where auth_type = BASIC]
  by (simp add: NTLM_def BASIC_def DIGEST_def UNKNOWN_def)


section \<open>Validating a response\<close>

lemma count_pos:
  "sub \<noteq> [] \<Longrightarrow> (0 < count s sub) = (\<exists>a b. s = a @ sub @ b)"
proof (induction s sub rule: count.induct)
  case (1 s sub)
  show ?case
  proof (cases "length s < length sub")
    case True
    then have "count s sub = 0" using "1.prems" by (simp add: count.simps [of s sub])
    moreover have "\<not> (\<exists>a b. s = a @ sub @ b)" using True by auto
    ultimately show ?thesis by simp
  next
    case False
    show ?thesis
    proof (cases "take (length sub) s = sub")
      case True
      then have "0 < count s sub" using "1.prems" False by (simp add: count.simps [of s sub])
      moreover have "s = [] @ sub @ drop (length sub) s" using True by (metis append_Nil append_take_drop_id)
      ultimately show ?thesis by blast
    next
      case nt: False
      have c: "count s sub = count (tl s) sub"
        using "1.prems" False nt by (simp add: count.simps [of s sub])
      have ih: "(0 < count (tl s) sub) = (\<exists>a b. tl s = a @ sub @ b)"
        using "1.IH"(2) [OF "1.prems" False nt "1.prems"] .
      have ne: "s \<noteq> []" using False "1.prems" by auto
      have "(\<exists>a b. s = a @ sub @ b) = (\<exists>a b. tl s = a @ sub @ b)"
      proof
        assume "\<exists>a b. s = a @ sub @ b"
        then obtain a b where ab: "s = a @ sub @ b" by blast
        have "a \<noteq> []" using ab nt by auto
        then obtain x a' where "a = x # a'" by (cases a) auto
        with ab have "tl s = a' @ sub @ b" by simp
        then show "\<exists>a b. tl s = a @ sub @ b" by blast
      next
        assume "\<exists>a b. tl s = a @ sub @ b"
        then obtain a b where "tl s = a @ sub @ b" by blast
        with ne have "s = (hd s # a) @ sub @ b" by (cases s) auto
        then show "\<exists>a b. s = a @ sub @ b" by blast
      qed
      with c ih show ?thesis by simp
    qed
  qed
qed

lemma is_unauthorized_iff:
  "is_unauthorized txt = (\<exists>a b. lower txt = a @ ''unauthorized'' @ b)"
  using count_pos [of "''unauthorized''" "lower txt"] by (simp add: is_unauthorized_def)

text \<open>
  C5. \<open>_test_response\<close> decides in this order: a body that \<open>is_xml\<close> accepts is good
  news, whatever else it contains; otherwise a body whose lower-cased text contains
  \<open>unauthorized\<close> is an \<open>UnauthorizedError\<close>; otherwise an empty body under an NTLM auth
  instance is an \<open>UnauthorizedError\<close>; otherwise a \<open>TransportError\<close> whose message ends
  with the body. The status code plays no part: changing it changes nothing, and an
  empty body under NTLM with status 200 is unauthorized.
\<close>

theorem test_response_spec:
  "test_response is_xml auth response =
     (if is_xml (text' response) then Inr True
      else if (\<exists>a b. lower (text' response) = a @ ''unauthorized'' @ b)
        then Inl (UnauthorizedError ''Unauthorized (non-401)'')
      else if isinstance_HttpNtlmAuth auth \<and> text' response = []
        then Inl (UnauthorizedError ''Unauthorized (NTLM, empty response)'')
      else Inl (TransportError (''Unknown response from Exchange:'' @ [CHR 0x0A, CHR 0x0A] @ text' response)))
   \<and> test_response is_xml auth (response\<lparr>status_code := code\<rparr>) = test_response is_xml auth response
   \<and> (\<not> is_xml [] \<longrightarrow>
        test_response is_xml (Some (Auth HttpNtlmAuth u p)) (response\<lparr>status_code := 200, text' := []\<rparr>)
          = Inl (UnauthorizedError ''Unauthorized (NTLM, empty response)''))"
proof -
  have e: "\<not> is_unauthorized []"
    by (simp add: is_unauthorized_iff lower_def)
  have c1: "test_response is_xml auth response =
     (if is_xml (text' response) then Inr True
      else if (\<exists>a b. lower (text' response) = a @ ''unauthorized'' @ b)
        then Inl (UnauthorizedError ''Unauthorized (non-401)'')
      else if isinstance_HttpNtlmAuth auth \<and> text' response = []
        then Inl (UnauthorizedError ''Unauthorized (NTLM, empty response)'')
      else Inl (TransportError (''Unknown response from Exchange:'' @ [CHR 0x0A, CHR 0x0A] @ text' response)))"
    unfolding test_response_def Let_def is_unauthorized_iff by (rule refl)
  have c2: "test_response is_xml auth (response\<lparr>status_code := code\<rparr>) = test_response is_xml auth response"
    by (simp add: test_response_def)
  have c3: "\<not> is_xml [] \<longrightarrow>
        test_response is_xml (Some (Auth HttpNtlmAuth u p)) (response\<lparr>status_code := 200, text' := []\<rparr>)
          = Inl (UnauthorizedError ''Unauthorized (NTLM, empty response)'')"
    using e by (simp add: test_response_def isinstance_HttpNtlmAuth_def)
  from c1 c2 c3 show ?thesis by blast
qed

theorem test_response_spec_witness:
  "\<not> startswith [] ''<?xml''
   \<and> test_response (\<lambda>s. startswith s ''<?xml'') (Some (Auth HttpNtlmAuth ''u'' ''p''))
        \<lparr>status_code = 200, reason = ''OK'', headers = [], text' = [], request_url = ''https://h/EWS'',
         request_server = ''h'', request_has_ssl = True, redirect_target = None\<rparr>
       = Inl (UnauthorizedError ''Unauthorized (NTLM, empty response)'')"
  using test_response_spec [where is_xml = "\<lambda>s. startswith s ''<?xml''" and u = "''u''" and p = "''p''"
      and response = "\<lparr>status_code = 500, reason = ''OK'', headers = [], text' = ''x'', request_url = ''https://h/EWS'',
         request_server = ''h'', request_has_ssl = True, redirect_target = None\<rparr>"]
  by (simp add: startswith_def)


section \<open>The envelope\<close>

lemma wrap_envelope_tree:
  "wrap_envelope IMPERSONATION content version account tz =
     Element ''s:Envelope'' [(''xmlns:s'', SOAPNS), (''xmlns:t'', TNS), (''xmlns:m'', MNS)] None
       [Element ''s:Header'' [] None
          (Element ''t:RequestServerVersion'' [(''Version'', version)] None []
           # (case account of
                None \<Rightarrow> []
              | Some a \<Rightarrow>
                  if access_type a = IMPERSONATION then
                    [Element ''t:ExchangeImpersonation'' [] None
                       [Element ''t:ConnectingSID'' [] None
                          [Element ''t:PrimarySmtpAddress'' [] (Some (primary_smtp_address a)) []]]]
                  else [])
           @ (case tz of
                None \<Rightarrow> []
              | Some z \<Rightarrow>
                  [Element ''t:TimeZoneContext'' [] None
                     [Element ''t:TimeZoneDefinition'' [(''Id'', ms_id z)] None []]])),
        Element ''s:Body'' [] None [content]]"
  by (simp add: wrap_envelope_def create_element_def add_xml_child_def Let_def
      split: option.split)

text \<open>
  C9. The envelope has a header and a body, in this order. The header holds the
  version element first, then the impersonation block exactly when an account is given
  and its access type is \<open>IMPERSONATION\<close>, then the timezone context exactly when a
  timezone is given. The body holds the payload element and nothing else, unchanged.
  \<open>wrap\<close> returns the serialisation of this tree, so any parser that inverts the
  serialiser finds the payload back in the body.
\<close>

theorem wrap_spec:
  fixes parse :: "'s \<Rightarrow> element"
  shows
  "map tag (children (wrap_envelope IMPERSONATION content version account tz)) = [''s:Header'', ''s:Body'']
   \<and> children (children (wrap_envelope IMPERSONATION content version account tz) ! 0) =
       Element ''t:RequestServerVersion'' [(''Version'', version)] None []
       # (case account of
            None \<Rightarrow> []
          | Some a \<Rightarrow>
              if access_type a = IMPERSONATION then
                [Element ''t:ExchangeImpersonation'' [] None
                   [Element ''t:ConnectingSID'' [] None
                      [Element ''t:PrimarySmtpAddress'' [] (Some (primary_smtp_address a)) []]]]
              else [])
       @ (case tz of
            None \<Rightarrow> []
          | Some z \<Rightarrow>
              [Element ''t:TimeZoneContext'' [] None
                 [Element ''t:TimeZoneDefinition'' [(''Id'', ms_id z)] None []]])
   \<and> map tag (children (children (wrap_envelope IMPERSONATION content version account tz) ! 0)) =
       ''t:RequestServerVersion''
       # (if (case account of None \<Rightarrow> False | Some a \<Rightarrow> access_type a = IMPERSONATION)
          then [''t:ExchangeImpersonation''] else [])
       @ (if tz \<noteq> None then [''t:TimeZoneContext''] else [])
   \<and> children (children (wrap_envelope IMPERSONATION content version account tz) ! 1) = [content]
   \<and> wrap IMPERSONATION xml_to_str content version account tz encoding =
       xml_to_str (wrap_envelope IMPERSONATION content version account tz) encoding True
   \<and> ((\<forall>e. parse (xml_to_str e encoding True) = e) \<longrightarrow>
        children (children (parse (wrap IMPERSONATION xml_to_str content version account tz encoding)) ! 1)
          = [content])"
  by (simp add: wrap_envelope_tree wrap_def split: option.split)

theorem wrap_spec_witness:
  "(\<forall>e. id ((\<lambda>e enc decl. e) e ''utf-8'' True) = e)
   \<and> children (children (id (wrap ''impersonation'' (\<lambda>e enc decl. e) (Element ''m:ResolveNames'' [] None [])
        ''Exchange2010''
        (Some \<lparr>access_type = ''impersonation'', primary_smtp_address = ''ann@example.com''\<rparr>)
        None ''utf-8'')) ! 1) = [Element ''m:ResolveNames'' [] None []]
   \<and> map tag (children (children (wrap_envelope ''impersonation'' (Element ''m:ResolveNames'' [] None [])
        ''Exchange2010''
        (Some \<lparr>access_type = ''impersonation'', primary_smtp_address = ''ann@example.com''\<rparr>)
        None) ! 0)) = [''t:RequestServerVersion'', ''t:ExchangeImpersonation'']"
  using wrap_spec [where parse = id and xml_to_str = "\<lambda>e enc decl. e" and encoding = "''utf-8''"
      and IMPERSONATION = "''impersonation''" and content = "Element ''m:ResolveNames'' [] None []"
      and version = "''Exchange2010''" and tz = None
      and account = "Some \<lparr>access_type = ''impersonation'', primary_smtp_address = ''ann@example.com''\<rparr>"]
  by simp


section \<open>Classifying a 401 response\<close>

text \<open>
  The scan of one \<open>www-authenticate\<close> header succeeds exactly when every token that
  starts with \<open>realm\<close> holds a \<open>=\<close>; then the scheme is chosen by priority among the
  tokens, whatever their order. A \<open>realm\<close> token without \<open>=\<close> ends the classification
  with \<open>IndexError\<close> before any scheme is looked at.
\<close>

lemma split_nonempty: "split v sep \<noteq> []"
  by (induction v) (auto split: list.split)

lemma split_two_iff: "(\<exists>x y ys. split v sep = x # y # ys) = (sep \<in> set v)"
proof (induction v)
  case Nil
  show ?case by simp
next
  case (Cons c cs)
  obtain x xs where s: "split cs sep = x # xs"
    using split_nonempty [of cs sep] by (cases "split cs sep") auto
  show ?case
  proof (cases "c = sep")
    case True
    then show ?thesis using s by simp
  next
    case False
    have "(\<exists>a y ys. split (c # cs) sep = a # y # ys) = (\<exists>y ys. xs = y # ys)"
      using False s by auto
    also have "\<dots> = (\<exists>a y ys. split cs sep = a # y # ys)" using s by auto
    finally show ?thesis using Cons.IH False by simp
  qed
qed

lemma realm_loop_ok:
  "(\<exists>x. realm_loop realm vs = Inr x) = (\<forall>v \<in> set vs. startswith v ''realm'' \<longrightarrow> CHR ''='' \<in> set v)"
proof (induction vs arbitrary: realm)
  case Nil
  show ?case by simp
next
  case (Cons v vs)
  show ?case
  proof (cases "startswith v ''realm''")
    case False
    then show ?thesis using Cons.IH by simp
  next
    case True
    show ?thesis
    proof (cases "CHR ''='' \<in> set v")
      case True
      then obtain x y ys where "split v CHR ''='' = x # y # ys"
        using split_two_iff [of v "CHR ''=''"] by blast
      then show ?thesis using \<open>startswith v ''realm''\<close> True Cons.IH by simp
    next
      case False
      then have "\<not> (\<exists>x y ys. split v CHR ''='' = x # y # ys)"
        using split_two_iff [of v "CHR ''=''"] by blast
      then have "realm_loop realm (v # vs) = Inl IndexError"
        using \<open>startswith v ''realm''\<close> by (auto split: list.split)
      then show ?thesis using False \<open>startswith v ''realm''\<close> by auto
    qed
  qed
qed

lemma realm_loop_fails:
  "realm_loop realm vs = Inl e \<Longrightarrow> e = IndexError"
  by (induction vs arbitrary: realm) (auto split: if_splits list.splits)

lemma scan_headers_skip:
  "lower key \<noteq> ''www-authenticate'' \<Longrightarrow> scan_headers ((key, val) # items) = scan_headers items"
  by simp

lemma scan_headers_priority:
  assumes "lower key = ''www-authenticate''"
    and "\<forall>v \<in> set (tokenize (lower val)). startswith v ''realm'' \<longrightarrow> CHR ''='' \<in> set v"
  shows "scan_headers ((key, val) # items) =
     (if ''digest'' \<in> set (tokenize (lower val)) then Inr DIGEST
      else if ''ntlm'' \<in> set (tokenize (lower val)) then Inr NTLM
      else if ''basic'' \<in> set (tokenize (lower val)) then Inr BASIC
      else scan_headers items)"
proof -
  obtain x where "realm_loop None (tokenize (lower val)) = Inr x"
    using realm_loop_ok [of None "tokenize (lower val)"] assms(2) by blast
  then show ?thesis using assms(1) by (simp add: Let_def)
qed

lemma scan_headers_index_error:
  assumes "lower key = ''www-authenticate''"
    and "v \<in> set (tokenize (lower val))" "startswith v ''realm''" "CHR ''='' \<notin> set v"
  shows "scan_headers ((key, val) # items) = Inl IndexError"
proof -
  have "\<not> (\<exists>x. realm_loop None (tokenize (lower val)) = Inr x)"
    using realm_loop_ok [of None "tokenize (lower val)"] assms(2-4) by blast
  then obtain e where "realm_loop None (tokenize (lower val)) = Inl e"
    by (cases "realm_loop None (tokenize (lower val))") auto
  then show ?thesis using assms(1) realm_loop_fails by (auto simp: Let_def)
qed

text \<open>
  C1. The claim holds on every header whose \<open>realm\<close> tokens carry a \<open>=\<close>
  (\<open>scan_headers_priority\<close>); the code departs from it on the others. The 401 response
  whose header is \<open>Basic realm\<close> advertises \<open>basic\<close>, and its classification is
  \<open>IndexError\<close>, not \<open>BASIC\<close>.
\<close>

theorem classify_basic_realm_without_value:
  "''basic'' \<in> set (tokenize (lower ''Basic realm''))
   \<and> get_auth_method_from_response
       \<lparr>status_code = 401, reason = ''Unauthorized'', headers = [(''WWW-Authenticate'', ''Basic realm'')],
        text' = [], request_url = ''https://host1/EWS/Exchange.asmx'', request_server = ''host1'',
        request_has_ssl = True, redirect_target = None\<rparr>
     = Inl IndexError"
  by code_simp

text \<open>
  C3. The classification of a 401 response can leave with an exception that is none of
  the classified failures: a header value whose \<open>realm\<close> token is followed by a space
  before the \<open>=\<close> makes the index into the split raise \<open>IndexError\<close>.
\<close>

theorem classify_escapes_with_index_error:
  \<open>get_auth_method_from_response
       \<lparr>status_code = 401, reason = ''Unauthorized'',
        headers = [(''Server'', ''Microsoft-IIS/8.5''), (''WWW-Authenticate'', ''Negotiate realm ="x"'')],
        text' = [], request_url = ''https://host1/EWS/Exchange.asmx'', request_server = ''host1'',
        request_has_ssl = True, redirect_target = None\<rparr>
     = Inl IndexError\<close>
  by code_simp


section \<open>Classifying a redirect\<close>

lemma get_redirect_url_relative:
  assumes "redirect_target r = Some (u, server, has_ssl)" "u \<noteq> request_url r"
    and "has_ssl = request_has_ssl r \<and> server = request_server r"
  shows "get_redirect_url r False False = Inl (RelativeRedirect u)"
    and "get_redirect_url r True True = Inr (u, server, has_ssl)"
  using assms by (simp_all add: get_redirect_url_def is_relative_def)

lemma get_redirect_url_cross:
  assumes "redirect_target r = Some (u, server, has_ssl)" "u \<noteq> request_url r"
    and "\<not> (has_ssl = request_has_ssl r \<and> server = request_server r)"
  shows "get_redirect_url r False False = Inr (u, server, has_ssl)"
    and "get_redirect_url r True True = Inl (RelativeRedirect u)"
  using assms by (auto simp add: get_redirect_url_def is_relative_def)






section \<open>The autodiscover probe\<close>

lemma autodiscover_head_first:
  "\<exists>rest. snd (get_autodiscover_authtype http ep data timeout verify) =
     autodiscover_head ep timeout verify # rest"
  by (auto simp: get_autodiscover_authtype_def Let_def split: sum.split exc.split)

lemma autodiscover_abort:
  assumes "http 0 (autodiscover_head ep timeout verify) = Inr r" "status_code r = 302"
    and "get_redirect_url r True True = Inl (RelativeRedirect u)"
  shows "get_autodiscover_authtype http ep data timeout verify =
     (Inl (RedirectError u), [autodiscover_head ep timeout verify])"
  using assms by (simp add: get_autodiscover_authtype_def Let_def)

lemma autodiscover_post_after_relative:
  assumes "http 0 (autodiscover_head ep timeout verify) = Inr r" "status_code r = 302"
    and "get_redirect_url r True True = Inr t"
  shows "get_autodiscover_authtype http ep data timeout verify =
     ((case http 1 (autodiscover_post ep data timeout verify) of
         Inl e \<Rightarrow> Inl e
       | Inr r' \<Rightarrow> get_auth_method_from_response r'),
      [autodiscover_head ep timeout verify, autodiscover_post ep data timeout verify])"
  using assms by (simp add: get_autodiscover_authtype_def Let_def split: sum.split)

lemma autodiscover_post_without_redirect:
  assumes "http 0 (autodiscover_head ep timeout verify) = Inr r" "status_code r \<noteq> 302"
  shows "get_autodiscover_authtype http ep data timeout verify =
     ((case http 1 (autodiscover_post ep data timeout verify) of
         Inl e \<Rightarrow> Inl e
       | Inr r' \<Rightarrow> get_auth_method_from_response r'),
      [autodiscover_head ep timeout verify, autodiscover_post ep data timeout verify])"
  using assms by (simp add: get_autodiscover_authtype_def Let_def split: sum.split)

text \<open>
  C7. The first request is a HEAD with redirect following off. If its response is a
  302 to another scheme or host, the probe ends there with \<open>RedirectError\<close> carrying
  the target URL, and the HEAD is the only request issued. If the response is no 302,
  or a 302 to a target on the scheme and host of the request, the probe goes on to a
  POST of the caller's payload, and the outcome is the classification of the POST's
  response (or the HTTP client's exception, should the POST raise).
\<close>

theorem autodiscover_spec:
  "req_method (autodiscover_head ep timeout verify) = HEAD
   \<and> req_allow_redirects (autodiscover_head ep timeout verify) = False
   \<and> (\<exists>rest. snd (get_autodiscover_authtype http ep data timeout verify) =
         autodiscover_head ep timeout verify # rest)
   \<and> (http 0 (autodiscover_head ep timeout verify) = Inr r \<and> status_code r = 302
        \<and> redirect_target r = Some (u, server, has_ssl) \<and> u \<noteq> request_url r
        \<and> \<not> (has_ssl = request_has_ssl r \<and> server = request_server r) \<longrightarrow>
      get_autodiscover_authtype http ep data timeout verify =
        (Inl (RedirectError u), [autodiscover_head ep timeout verify]))
   \<and> (http 0 (autodiscover_head ep timeout verify) = Inr r
        \<and> (status_code r \<noteq> 302
            \<or> (redirect_target r = Some (u, server, has_ssl) \<and> u \<noteq> request_url r
                \<and> has_ssl = request_has_ssl r \<and> server = request_server r)) \<longrightarrow>
      get_autodiscover_authtype http ep data timeout verify =
        ((case http 1 (autodiscover_post ep data timeout verify) of
            Inl e \<Rightarrow> Inl e
          | Inr r' \<Rightarrow> get_auth_method_from_response r'),
         [autodiscover_head ep timeout verify, autodiscover_post ep data timeout verify]))
   \<and> req_method (autodiscover_post ep data timeout verify) = POST
   \<and> req_data (autodiscover_post ep data timeout verify) = Some data
   \<and> req_allow_redirects (autodiscover_post ep data timeout verify) = False"
proof -
  have a: "http 0 (autodiscover_head ep timeout verify) = Inr r \<and> status_code r = 302
        \<and> redirect_target r = Some (u, server, has_ssl) \<and> u \<noteq> request_url r
        \<and> \<not> (has_ssl = request_has_ssl r \<and> server = request_server r) \<longrightarrow>
      get_autodiscover_authtype http ep data timeout verify =
        (Inl (RedirectError u), [autodiscover_head ep timeout verify])"
    using autodiscover_abort [of http ep timeout verify r u data]
      get_redirect_url_cross(2) [of r u server has_ssl] by blast
  have b: "http 0 (autodiscover_head ep timeout verify) = Inr r
        \<and> (status_code r \<noteq> 302
            \<or> (redirect_target r = Some (u, server, has_ssl) \<and> u \<noteq> request_url r
                \<and> has_ssl = request_has_ssl r \<and> server = request_server r)) \<longrightarrow>
      get_autodiscover_authtype http ep data timeout verify =
        ((case http 1 (autodiscover_post ep data timeout verify) of
            Inl e \<Rightarrow> Inl e
          | Inr r' \<Rightarrow> get_auth_method_from_response r'),
         [autodiscover_head ep timeout verify, autodiscover_post ep data timeout verify])"
    using autodiscover_post_without_redirect [of http ep timeout verify r data]
      autodiscover_post_after_relative [of http ep timeout verify r "(u, server, has_ssl)" data]
      get_redirect_url_relative(2) [of r u server has_ssl] by blast
  show ?thesis
    using a b autodiscover_head_first [of http ep data timeout verify]
    by (simp add: autodiscover_head_def autodiscover_post_def)
qed

theorem autodiscover_spec_witness:
  "get_autodiscover_authtype
     (\<lambda>n rq. if n = 0 then
        Inr \<lparr>status_code = 302, reason = ''Found'', headers = [(''Location'', ''https://otherhost/path'')],
             text' = [], request_url = ''https://host1/autodiscover/autodiscover.xml'',
             request_server = ''host1'', request_has_ssl = True,
             redirect_target = Some (''https://otherhost/path'', ''otherhost'', True)\<rparr>
      else Inl (RequestException ''not reached''))
     ''https://host1/autodiscover/autodiscover.xml'' ''<Autodiscover/>'' 10 True
   = (Inl (RedirectError ''https://otherhost/path''),
      [autodiscover_head ''https://host1/autodiscover/autodiscover.xml'' 10 True])
   \<and> get_autodiscover_authtype
     (\<lambda>n rq. if n = 0 then
        Inr \<lparr>status_code = 302, reason = ''Found'', headers = [(''Location'', ''/error.html'')],
             text' = [], request_url = ''https://host1/autodiscover/autodiscover.xml'',
             request_server = ''host1'', request_has_ssl = True,
             redirect_target = Some (''https://host1/error.html'', ''host1'', True)\<rparr>
      else
        Inr \<lparr>status_code = 401, reason = ''Unauthorized'', headers = [(''WWW-Authenticate'', ''NTLM'')],
             text' = [], request_url = ''https://host1/autodiscover/autodiscover.xml'',
             request_server = ''host1'', request_has_ssl = True, redirect_target = None\<rparr>)
     ''https://host1/autodiscover/autodiscover.xml'' ''<Autodiscover/>'' 10 True
   = (Inr NTLM,
      [autodiscover_head ''https://host1/autodiscover/autodiscover.xml'' 10 True,
       autodiscover_post ''https://host1/autodiscover/autodiscover.xml'' ''<Autodiscover/>'' 10 True])"
proof -
  have c: "get_auth_method_from_response
        \<lparr>status_code = 401, reason = ''Unauthorized'', headers = [(''WWW-Authenticate'', ''NTLM'')],
         text' = [], request_url = ''https://host1/autodiscover/autodiscover.xml'',
         request_server = ''host1'', request_has_ssl = True, redirect_target = None\<rparr> = Inr NTLM"
    by code_simp
  show ?thesis
    using c
      autodiscover_spec [where http = "\<lambda>n rq. if n = 0 then
        Inr \<lparr>status_code = 302, reason = ''Found'', headers = [(''Location'', ''https://otherhost/path'')],
             text' = [], request_url = ''https://host1/autodiscover/autodiscover.xml'',
             request_server = ''host1'', request_has_ssl = True,
             redirect_target = Some (''https://otherhost/path'', ''otherhost'', True)\<rparr>
        else Inl (RequestException ''not reached'')"
        and ep = "''https://host1/autodiscover/autodiscover.xml''" and data = "''<Autodiscover/>''"
        and timeout = 10 and verify = True
        and r = "\<lparr>status_code = 302, reason = ''Found'', headers = [(''Location'', ''https://otherhost/path'')],
             text' = [], request_url = ''https://host1/autodiscover/autodiscover.xml'',
             request_server = ''host1'', request_has_ssl = True,
             redirect_target = Some (''https://otherhost/path'', ''otherhost'', True)\<rparr>"
        and u = "''https://otherhost/path''" and server = "''otherhost''" and has_ssl = True]
      autodiscover_spec [where http = "\<lambda>n rq. if n = 0 then
        Inr \<lparr>status_code = 302, reason = ''Found'', headers = [(''Location'', ''/error.html'')],
             text' = [], request_url = ''https://host1/autodiscover/autodiscover.xml'',
             request_server = ''host1'', request_has_ssl = True,
             redirect_target = Some (''https://host1/error.html'', ''host1'', True)\<rparr>
        else
        Inr \<lparr>status_code = 401, reason = ''Unauthorized'', headers = [(''WWW-Authenticate'', ''NTLM'')],
             text' = [], request_url = ''https://host1/autodiscover/autodiscover.xml'',
             request_server = ''host1'', request_has_ssl = True, redirect_target = None\<rparr>"
        and ep = "''https://host1/autodiscover/autodiscover.xml''" and data = "''<Autodiscover/>''"
        and timeout = 10 and verify = True
        and r = "\<lparr>status_code = 302, reason = ''Found'', headers = [(''Location'', ''/error.html'')],
             text' = [], request_url = ''https://host1/autodiscover/autodiscover.xml'',
             request_server = ''host1'', request_has_ssl = True,
             redirect_target = Some (''https://host1/error.html'', ''host1'', True)\<rparr>"
        and u = "''https://host1/error.html''" and server = "''host1''" and has_ssl = True]
    by simp
qed


section \<open>The service probe\<close>

lemma service_loop_exhausted:
  "(\<forall>i < length vs. folds_to_next h http mk ep verify (n + i) (vs ! i)) \<Longrightarrow>
   service_loop h http mk ep verify n vs =
     (Inl (TransportError ''Failed to get auth type from service''),
      map (\<lambda>v. service_post ep verify (mk v)) vs)"
proof (induction vs arbitrary: n)
  case Nil
  show ?case by simp
next
  case (Cons v vs)
  have f: "folds_to_next h http mk ep verify n v" using Cons.prems by force
  have "\<forall>i < length vs. folds_to_next h http mk ep verify (Suc n + i) (vs ! i)"
  proof (intro allI impI)
    fix i assume "i < length vs"
    then have "folds_to_next h http mk ep verify (n + Suc i) ((v # vs) ! Suc i)"
      using Cons.prems by (metis length_Cons Suc_less_eq)
    then show "folds_to_next h http mk ep verify (Suc n + i) (vs ! i)" by simp
  qed
  from Cons.IH [OF this] f show ?case
    by (auto simp: folds_to_next_def Let_def split: sum.splits)
qed

lemma service_loop_first_resolved:
  "i < length vs \<Longrightarrow> (\<forall>j < i. folds_to_next h http mk ep verify (n + j) (vs ! j)) \<Longrightarrow>
   \<not> folds_to_next h http mk ep verify (n + i) (vs ! i) \<Longrightarrow>
   service_loop h http mk ep verify n vs =
     (service_attempt http mk ep verify (n + i) (vs ! i),
      map (\<lambda>v. service_post ep verify (mk v)) (take (Suc i) vs))"
proof (induction vs arbitrary: n i)
  case Nil
  then show ?case by simp
next
  case (Cons v vs)
  show ?case
  proof (cases i)
    case 0
    then have "\<not> folds_to_next h http mk ep verify n v" using Cons.prems(3) by simp
    then show ?thesis using 0
      by (auto simp: folds_to_next_def service_attempt_def Let_def split: sum.splits)
  next
    case (Suc k)
    have f: "folds_to_next h http mk ep verify n v" using Cons.prems(2) Suc by force
    have k: "k < length vs" using Cons.prems(1) Suc by simp
    have p: "\<forall>j < k. folds_to_next h http mk ep verify (Suc n + j) (vs ! j)"
    proof (intro allI impI)
      fix j assume "j < k"
      then have "folds_to_next h http mk ep verify (n + Suc j) ((v # vs) ! Suc j)"
        using Cons.prems(2) Suc by (metis Suc_less_eq)
      then show "folds_to_next h http mk ep verify (Suc n + j) (vs ! j)" by simp
    qed
    have q: "\<not> folds_to_next h http mk ep verify (Suc n + k) (vs ! k)"
      using Cons.prems(3) Suc by simp
    from Cons.IH [OF k p q] f Suc show ?thesis
      by (auto simp: folds_to_next_def Let_def split: sum.splits)
  qed
qed

lemma service_loop_trace:
  "\<exists>k \<le> length vs. snd (service_loop h http mk ep verify n vs) =
     map (\<lambda>v. service_post ep verify (mk v)) (take k vs)"
proof (induction vs arbitrary: n)
  case Nil
  show ?case by simp
next
  case (Cons v vs)
  obtain k where k: "k \<le> length vs"
    "snd (service_loop h http mk ep verify (Suc n) vs) = map (\<lambda>v. service_post ep verify (mk v)) (take k vs)"
    using Cons.IH [of "Suc n"] by blast
  have "snd (service_loop h http mk ep verify n (v # vs)) = map (\<lambda>v. service_post ep verify (mk v)) (take (Suc 0) (v # vs))
      \<or> snd (service_loop h http mk ep verify n (v # vs)) = map (\<lambda>v. service_post ep verify (mk v)) (take (Suc k) (v # vs))"
    using k(2) by (auto simp: Let_def split: sum.splits prod.splits)
  then show ?case using k(1)
    by (metis Suc_le_mono length_Cons le0)
qed


lemma unexpected_status_folds:
  assumes "http n (service_post ep verify (mk v)) = Inr r" "status_code r \<notin> {200, 302, 401}"
  shows "folds_to_next h http mk ep verify n v"
  using assms by (simp add: folds_to_next_def get_auth_method_from_response_def)

text \<open>
  C6, as the code has it. The requests issued are the POSTs for a prefix of the
  versions, in the order given, one each, with redirect following on. An attempt is
  folded into the next one exactly when the POST returns a response whose classification
  fails with an instance of \<open>TransportError\<close>, as an unexpected status does. An attempt
  that resolves an auth type is not folded, and neither is one whose POST raises: that
  call stands before the \<open>try\<close>, and its exception ends the probe. If every attempt is
  folded, the probe fails with the \<open>TransportError\<close> \<open>Failed to get auth type from service\<close>
  after trying all versions. Otherwise the outcome is that of the first attempt that is
  not folded, and no later version is tried.
\<close>

theorem service_probe_spec:
  "(\<exists>k \<le> length versions.
      snd (get_service_authtype h http payload ep versions verify name) =
        map (\<lambda>v. service_post ep verify (dummy_xml payload v name)) (take k versions))
   \<and> service_post ep verify d =
        \<lparr>req_method = POST, req_url = ep, req_headers = [(''Content-Type'', ''text/xml; charset=utf-8'')],
         req_data = Some d, req_timeout = None, req_allow_redirects = True, req_verify = verify\<rparr>
   \<and> dummy_xml payload v name = payload v None [name]
   \<and> ((\<forall>i < length versions.
          folds_to_next h http (\<lambda>v. dummy_xml payload v name) ep verify i (versions ! i)) \<longrightarrow>
        get_service_authtype h http payload ep versions verify name =
          (Inl (TransportError ''Failed to get auth type from service''),
           map (\<lambda>v. service_post ep verify (dummy_xml payload v name)) versions))
   \<and> (i < length versions
        \<and> (\<forall>j < i. folds_to_next h http (\<lambda>v. dummy_xml payload v name) ep verify j (versions ! j))
        \<and> \<not> folds_to_next h http (\<lambda>v. dummy_xml payload v name) ep verify i (versions ! i) \<longrightarrow>
        get_service_authtype h http payload ep versions verify name =
          (service_attempt http (\<lambda>v. dummy_xml payload v name) ep verify i (versions ! i),
           map (\<lambda>v. service_post ep verify (dummy_xml payload v name)) (take (Suc i) versions)))
   \<and> folds_to_next h http mk ep verify n v =
        (\<exists>r x. http n (service_post ep verify (mk v)) = Inr r
           \<and> get_auth_method_from_response r = Inl x \<and> isinstance_TransportError h x)
   \<and> (http n (service_post ep verify (mk v)) = Inr r
        \<and> (status_code r \<notin> {200, 302, 401}
            \<or> (\<exists>m. get_auth_method_from_response r = Inl (TransportError m))) \<longrightarrow>
        folds_to_next h http mk ep verify n v)
   \<and> (http n (service_post ep verify (mk v)) = Inr r \<and> get_auth_method_from_response r = Inr a \<longrightarrow>
        \<not> folds_to_next h http mk ep verify n v \<and> service_attempt http mk ep verify n v = Inr a)
   \<and> (http n (service_post ep verify (mk v)) = Inl x \<longrightarrow>
        \<not> folds_to_next h http mk ep verify n v \<and> service_attempt http mk ep verify n v = Inl x)"
proof -
  have a: "\<exists>k \<le> length versions.
      snd (get_service_authtype h http payload ep versions verify name) =
        map (\<lambda>v. service_post ep verify (dummy_xml payload v name)) (take k versions)"
    unfolding get_service_authtype_def by (rule service_loop_trace)
  have b: "service_post ep verify d =
        \<lparr>req_method = POST, req_url = ep, req_headers = [(''Content-Type'', ''text/xml; charset=utf-8'')],
         req_data = Some d, req_timeout = None, req_allow_redirects = True, req_verify = verify\<rparr>"
    by (simp add: service_post_def content_type_headers_def)
  have b': "dummy_xml payload v name = payload v None [name]"
    by (simp add: dummy_xml_def)
  have c: "(\<forall>i < length versions.
          folds_to_next h http (\<lambda>v. dummy_xml payload v name) ep verify i (versions ! i)) \<longrightarrow>
        get_service_authtype h http payload ep versions verify name =
          (Inl (TransportError ''Failed to get auth type from service''),
           map (\<lambda>v. service_post ep verify (dummy_xml payload v name)) versions)"
    unfolding get_service_authtype_def
    using service_loop_exhausted [of versions h http "\<lambda>v. dummy_xml payload v name" ep verify 0]
    by simp
  have d: "i < length versions
        \<and> (\<forall>j < i. folds_to_next h http (\<lambda>v. dummy_xml payload v name) ep verify j (versions ! j))
        \<and> \<not> folds_to_next h http (\<lambda>v. dummy_xml payload v name) ep verify i (versions ! i) \<longrightarrow>
        get_service_authtype h http payload ep versions verify name =
          (service_attempt http (\<lambda>v. dummy_xml payload v name) ep verify i (versions ! i),
           map (\<lambda>v. service_post ep verify (dummy_xml payload v name)) (take (Suc i) versions))"
    unfolding get_service_authtype_def
    using service_loop_first_resolved [of i versions h http "\<lambda>v. dummy_xml payload v name" ep verify 0]
    by simp
  have g: "folds_to_next h http mk ep verify n v =
        (\<exists>r x. http n (service_post ep verify (mk v)) = Inr r
           \<and> get_auth_method_from_response r = Inl x \<and> isinstance_TransportError h x)"
    by (auto simp: folds_to_next_def split: sum.splits)
  have e: "http n (service_post ep verify (mk v)) = Inr r
        \<and> (status_code r \<notin> {200, 302, 401}
            \<or> (\<exists>m. get_auth_method_from_response r = Inl (TransportError m))) \<longrightarrow>
        folds_to_next h http mk ep verify n v"
    using unexpected_status_folds [of http n ep verify mk v r h]
    by (auto simp: folds_to_next_def)
  have f: "http n (service_post ep verify (mk v)) = Inr r \<and> get_auth_method_from_response r = Inr a \<longrightarrow>
        \<not> folds_to_next h http mk ep verify n v \<and> service_attempt http mk ep verify n v = Inr a"
    by (simp add: folds_to_next_def service_attempt_def)
  have k: "http n (service_post ep verify (mk v)) = Inl x \<longrightarrow>
        \<not> folds_to_next h http mk ep verify n v \<and> service_attempt http mk ep verify n v = Inl x"
    by (simp add: folds_to_next_def service_attempt_def)
  from a b b' c d g e f k show ?thesis by blast
qed

theorem service_probe_spec_witness:
  "get_service_authtype
     \<lparr>redirect_is_transport = True, relative_is_transport = True, unauthorized_is_transport = False\<rparr>
     (\<lambda>n rq. if n = 0 then
        Inr \<lparr>status_code = 500, reason = ''Internal Server Error'', headers = [], text' = [],
             request_url = ''https://host1/EWS/Exchange.asmx'', request_server = ''host1'',
             request_has_ssl = True, redirect_target = None\<rparr>
      else
        Inr \<lparr>status_code = 401, reason = ''Unauthorized'', headers = [(''WWW-Authenticate'', ''Basic realm=x'')],
             text' = [], request_url = ''https://host1/EWS/Exchange.asmx'', request_server = ''host1'',
             request_has_ssl = True, redirect_target = None\<rparr>)
     (\<lambda>version account names. version)
     ''https://host1/EWS/Exchange.asmx'' [''Exchange2007'', ''Exchange2010'', ''Exchange2013''] True ''a''
   = (Inr BASIC,
      [service_post ''https://host1/EWS/Exchange.asmx'' True ''Exchange2007'',
       service_post ''https://host1/EWS/Exchange.asmx'' True ''Exchange2010''])
   \<and> get_service_authtype
     \<lparr>redirect_is_transport = True, relative_is_transport = True, unauthorized_is_transport = False\<rparr>
     (\<lambda>n rq.
        Inr \<lparr>status_code = 500, reason = ''Internal Server Error'', headers = [], text' = [],
             request_url = ''https://host1/EWS/Exchange.asmx'', request_server = ''host1'',
             request_has_ssl = True, redirect_target = None\<rparr>)
     (\<lambda>version account names. version)
     ''https://host1/EWS/Exchange.asmx'' [''Exchange2007'', ''Exchange2010''] True ''a''
   = (Inl (TransportError ''Failed to get auth type from service''),
      [service_post ''https://host1/EWS/Exchange.asmx'' True ''Exchange2007'',
       service_post ''https://host1/EWS/Exchange.asmx'' True ''Exchange2010''])"
  (is "?A \<and> ?B")
proof -
  let ?h = "\<lparr>redirect_is_transport = True, relative_is_transport = True, unauthorized_is_transport = False\<rparr>"
  let ?r500 = "\<lparr>status_code = 500, reason = ''Internal Server Error'', headers = [], text' = [],
             request_url = ''https://host1/EWS/Exchange.asmx'', request_server = ''host1'',
             request_has_ssl = True, redirect_target = None\<rparr>"
  let ?r401 = "\<lparr>status_code = 401, reason = ''Unauthorized'', headers = [(''WWW-Authenticate'', ''Basic realm=x'')],
             text' = [], request_url = ''https://host1/EWS/Exchange.asmx'', request_server = ''host1'',
             request_has_ssl = True, redirect_target = None\<rparr>"
  let ?http1 = "\<lambda>(n::nat) (rq::request). if n = 0 then Inr ?r500 else (Inr ?r401 :: exc + response)"
  let ?http2 = "\<lambda>(n::nat) (rq::request). (Inr ?r500 :: exc + response)"
  let ?pl = "\<lambda>(version::string) (account::account option) (names::string list). version"
  let ?ep = "''https://host1/EWS/Exchange.asmx''"
  let ?mk = "\<lambda>v. dummy_xml ?pl v ''a''"
  have c401: "get_auth_method_from_response ?r401 = Inr BASIC" by code_simp
  have f500: "folds_to_next ?h http ?mk ?ep True n v"
    if "http n (service_post ?ep True (?mk v)) = Inr ?r500" for http v n
    using service_probe_spec [where r = ?r500 and mk = ?mk and ep = ?ep and verify = True and h = ?h
        and http = http and n = n and v = v,
        THEN conjunct2, THEN conjunct2, THEN conjunct2, THEN conjunct2, THEN conjunct2,
        THEN conjunct2, THEN conjunct1] that
    by simp
  have s1: "folds_to_next ?h ?http1 ?mk ?ep True 0 ''Exchange2007''"
    by (rule f500) simp
  have n1: "\<not> folds_to_next ?h ?http1 ?mk ?ep True 1 ''Exchange2010''
      \<and> service_attempt ?http1 ?mk ?ep True 1 ''Exchange2010'' = Inr BASIC"
    using service_probe_spec [where r = ?r401 and mk = ?mk and ep = ?ep and verify = True and h = ?h
        and http = ?http1 and n = 1 and v = "''Exchange2010''" and a = BASIC,
        THEN conjunct2, THEN conjunct2, THEN conjunct2, THEN conjunct2, THEN conjunct2,
        THEN conjunct2, THEN conjunct2, THEN conjunct1] c401
    by simp
  have A: ?A
    using service_probe_spec [where h = ?h and http = ?http1 and payload = ?pl and ep = ?ep
        and versions = "[''Exchange2007'', ''Exchange2010'', ''Exchange2013'']" and verify = True
        and name = "''a''" and i = 1,
        THEN conjunct2, THEN conjunct2, THEN conjunct2, THEN conjunct2, THEN conjunct1] s1 n1
    by (simp add: dummy_xml_def)
  have s2: "\<forall>i < length [''Exchange2007'', ''Exchange2010''].
      folds_to_next ?h ?http2 ?mk ?ep True i ([''Exchange2007'', ''Exchange2010''] ! i)"
    by (intro allI impI, rule f500) simp
  have B: ?B
    using service_probe_spec [where h = ?h and http = ?http2 and payload = ?pl and ep = ?ep
        and versions = "[''Exchange2007'', ''Exchange2010'']" and verify = True
        and name = "''a''",
        THEN conjunct2, THEN conjunct2, THEN conjunct2, THEN conjunct1] s2
    by (simp add: dummy_xml_def)
  from A B show ?thesis by blast
qed

text \<open>
  C6 as stated fails: when the POST for the first version raises on its own, a timeout
  say, the probe ends with that exception after this one request. The second version,
  which the server would have answered with a 200, is never tried, and the failure is
  not the one of exhausted versions.
\<close>

theorem service_probe_aborts_when_post_raises:
  "get_auth_method_from_response
     \<lparr>status_code = 200, reason = ''OK'', headers = [], text' = [],
      request_url = ''https://host1/EWS/Exchange.asmx'', request_server = ''host1'',
      request_has_ssl = True, redirect_target = None\<rparr>
   = Inr NOAUTH
   \<and> get_service_authtype
     \<lparr>redirect_is_transport = True, relative_is_transport = True, unauthorized_is_transport = True\<rparr>
     (\<lambda>n rq. if n = 0 then Inl (RequestException ''Read timed out'')
      else
        Inr \<lparr>status_code = 200, reason = ''OK'', headers = [], text' = [],
             request_url = ''https://host1/EWS/Exchange.asmx'', request_server = ''host1'',
             request_has_ssl = True, redirect_target = None\<rparr>)
     (\<lambda>version account names. version)
     ''https://host1/EWS/Exchange.asmx'' [''Exchange2007'', ''Exchange2010''] True ''a''
   = (Inl (RequestException ''Read timed out''),
      [service_post ''https://host1/EWS/Exchange.asmx'' True ''Exchange2007''])"
  by (simp add: get_service_authtype_def get_auth_method_from_response_def dummy_xml_def Let_def)

end
